theory Spec2Isabelle
  imports Main
begin

section \<open>The document tree\<close>

text \<open>
  The utilities work on the document tree of the editing framework. A node has a type
  (compared by identity in the source, \<^verbatim>\<open>child.type === nodeType\<close>; a schema has one
  type object per name, so a type is its name here) and is a text node, a leaf, or a node
  with an ordered content. Marks and attributes are read by none of the functions below
  and are left out.
\<close>

type_synonym NodeType = string

datatype ProsemirrorNode =
    Branch NodeType "ProsemirrorNode list"
  | Leaf NodeType
  | TextNode string

fun node_type :: "ProsemirrorNode \<Rightarrow> NodeType" where
  "node_type (Branch t cs) = t"
| "node_type (Leaf t) = t"
| "node_type (TextNode s) = ''text''"

fun content :: "ProsemirrorNode \<Rightarrow> ProsemirrorNode list" where
  "content (Branch t cs) = cs"
| "content (Leaf t) = []"
| "content (TextNode s) = []"

fun isText :: "ProsemirrorNode \<Rightarrow> bool" where
  "isText (TextNode s) = True"
| "isText n = False"

text \<open>
  The framework's sizes: a text node takes one position per character, a leaf one
  position, any other node its content plus an opening and a closing token.
\<close>

fun nodeSize :: "ProsemirrorNode \<Rightarrow> nat"
  and fragment_size :: "ProsemirrorNode list \<Rightarrow> nat" where
  "nodeSize (Branch t cs) = 2 + fragment_size cs"
| "nodeSize (Leaf t) = 1"
| "nodeSize (TextNode s) = length s"
| "fragment_size [] = 0"
| "fragment_size (c # cs) = nodeSize c + fragment_size cs"

text \<open>
  \<^verbatim>\<open>node.descendants(f)\<close> is the framework's enumeration primitive: it calls
  \<^verbatim>\<open>f(child, pos)\<close> for every descendant in document order, \<^verbatim>\<open>pos\<close> being the offset
  directly before the child, and does not enter a child for which \<^verbatim>\<open>f\<close> returned
  \<^verbatim>\<open>false\<close> (any other return value, \<^verbatim>\<open>undefined\<close> included, lets it descend).
  Its loop runs over the children while the offset is below the content size; a node of
  a document has a positive size (a text node is never empty), so every child is visited.
  The callback of the source pushes onto an array, so the callback here takes and
  returns the state it mutates, next to the answer "the value returned was not false".
\<close>

type_synonym 's descend_callback = "ProsemirrorNode \<Rightarrow> nat \<Rightarrow> 's \<Rightarrow> bool \<times> 's"

fun nodesBetween :: "'s descend_callback \<Rightarrow> ProsemirrorNode list \<Rightarrow> nat \<Rightarrow> 's \<Rightarrow> 's" where
  "nodesBetween f [] nodeStart s = s"
| "nodesBetween f (Branch t cs # rest) nodeStart s =
     (case f (Branch t cs) nodeStart s of
        (go, s1) \<Rightarrow>
          nodesBetween f rest (nodeStart + nodeSize (Branch t cs))
            (if go \<and> fragment_size cs \<noteq> 0 then nodesBetween f cs (nodeStart + 1) s1 else s1))"
| "nodesBetween f (Leaf t # rest) nodeStart s =
     (case f (Leaf t) nodeStart s of
        (go, s1) \<Rightarrow> nodesBetween f rest (nodeStart + nodeSize (Leaf t)) s1)"
| "nodesBetween f (TextNode x # rest) nodeStart s =
     (case f (TextNode x) nodeStart s of
        (go, s1) \<Rightarrow> nodesBetween f rest (nodeStart + nodeSize (TextNode x)) s1)"

definition descendants :: "ProsemirrorNode \<Rightarrow> 's descend_callback \<Rightarrow> 's \<Rightarrow> 's" where
  "descendants n f s = nodesBetween f (content n) 0 s"

section \<open>Descendant search (src/node.ts)\<close>

datatype error =
    InvalidNodeParameter
  | InvalidPredicateParameter
  | RangeError

record NodeWithPos =
  node :: ProsemirrorNode
  pos :: nat

text \<open>
  An argument of the source that may be missing is an option here: \<^verbatim>\<open>node\<close> and
  \<^verbatim>\<open>predicate\<close> are tested with \<^verbatim>\<open>!node\<close> and \<^verbatim>\<open>!predicate\<close>, and \<^verbatim>\<open>descend\<close> is
  declared \<^verbatim>\<open>descend?: boolean\<close> with no default value, so \<open>None\<close> stands for an
  omitted, \<^verbatim>\<open>undefined\<close> or \<^verbatim>\<open>null\<close> argument. The callback returns \<^verbatim>\<open>false\<close> when
  \<^verbatim>\<open>!descend\<close>, which is the case for \<^verbatim>\<open>false\<close>, \<^verbatim>\<open>undefined\<close> and \<^verbatim>\<open>null\<close> alike.
\<close>

definition flatten :: "ProsemirrorNode option \<Rightarrow> bool option \<Rightarrow> error + NodeWithPos list" where
  "flatten node_arg descend =
     (case node_arg of
        None \<Rightarrow> Inl InvalidNodeParameter
      | Some n \<Rightarrow>
          Inr (descendants n
                 (\<lambda>child p result.
                    (descend = Some True, result @ [\<lparr>node = child, pos = p\<rparr>]))
                 []))"

type_synonym Predicate = "ProsemirrorNode \<Rightarrow> bool"

definition findChildren ::
  "ProsemirrorNode option \<Rightarrow> Predicate option \<Rightarrow> bool option \<Rightarrow> error + NodeWithPos list" where
  "findChildren node_arg predicate descend =
     (case node_arg of
        None \<Rightarrow> Inl InvalidNodeParameter
      | Some n \<Rightarrow>
          (case predicate of
             None \<Rightarrow> Inl InvalidPredicateParameter
           | Some p \<Rightarrow>
               (case flatten (Some n) descend of
                  Inl e \<Rightarrow> Inl e
                | Inr result \<Rightarrow> Inr (filter (\<lambda>child. p (node child)) result))))"

definition findChildrenByType ::
  "ProsemirrorNode option \<Rightarrow> NodeType \<Rightarrow> bool option \<Rightarrow> error + NodeWithPos list" where
  "findChildrenByType node_arg nodeType descend =
     findChildren node_arg (Some (\<lambda>child. node_type child = nodeType)) descend"

definition contains :: "ProsemirrorNode option \<Rightarrow> NodeType \<Rightarrow> error + bool" where
  "contains node_arg nodeType =
     (case findChildrenByType node_arg nodeType None of
        Inl e \<Rightarrow> Inl e
      | Inr result \<Rightarrow> Inr (length result \<noteq> 0))"

section \<open>Resolved positions\<close>

text \<open>
  A resolved position is the framework's view of an offset in a document: the offset, and
  a path with one entry per depth, holding the ancestor at that depth, the index of the
  child the position points into, and the absolute offset directly before that child. The framework stores the path as a flat array of
  triples, \<^verbatim>\<open>path[3*d]\<close>, \<^verbatim>\<open>path[3*d+1]\<close>, \<^verbatim>\<open>path[3*d+2]\<close>; it is a list of
  triples here, so that \<^verbatim>\<open>path[3*d-1]\<close> is the offset of entry \<open>d - 1\<close>, the
  offset directly before the ancestor at depth \<open>d\<close>. The accessors
  follow the framework: \<^verbatim>\<open>before\<close> and \<^verbatim>\<open>after\<close> raise a RangeError at depth 0, since
  there is no position before or after the top-level node.
\<close>

record ResolvedPos =
  rp_pos :: nat
  rp_path :: "(ProsemirrorNode \<times> nat \<times> nat) list"
  rp_parentOffset :: nat

definition rp_depth :: "ResolvedPos \<Rightarrow> nat" where
  "rp_depth p = length (rp_path p) - 1"

definition rp_node :: "ResolvedPos \<Rightarrow> nat \<Rightarrow> ProsemirrorNode" where
  "rp_node p d = fst (rp_path p ! d)"

definition rp_index :: "ResolvedPos \<Rightarrow> nat \<Rightarrow> nat" where
  "rp_index p d = fst (snd (rp_path p ! d))"

definition rp_offset :: "ResolvedPos \<Rightarrow> nat \<Rightarrow> nat" where
  "rp_offset p d = snd (snd (rp_path p ! d))"

definition rp_parent :: "ResolvedPos \<Rightarrow> ProsemirrorNode" where
  "rp_parent p = rp_node p (rp_depth p)"

definition rp_textOffset :: "ResolvedPos \<Rightarrow> nat" where
  "rp_textOffset p = rp_pos p - rp_offset p (length (rp_path p) - 1)"

definition rp_indexAfter :: "ResolvedPos \<Rightarrow> nat \<Rightarrow> nat" where
  "rp_indexAfter p d =
     rp_index p d + (if d = rp_depth p \<and> rp_textOffset p = 0 then 0 else 1)"

definition rp_start :: "ResolvedPos \<Rightarrow> nat \<Rightarrow> nat" where
  "rp_start p d = (if d = 0 then 0 else rp_offset p (d - 1) + 1)"

definition rp_before :: "ResolvedPos \<Rightarrow> nat \<Rightarrow> error + nat" where
  "rp_before p d =
     (if d = 0 then Inl RangeError
      else Inr (if d = rp_depth p + 1 then rp_pos p else rp_offset p (d - 1)))"

definition rp_after :: "ResolvedPos \<Rightarrow> nat \<Rightarrow> error + nat" where
  "rp_after p d =
     (if d = 0 then Inl RangeError
      else Inr (if d = rp_depth p + 1 then rp_pos p
                else rp_offset p (d - 1) + nodeSize (rp_node p d)))"

text \<open>
  \<^verbatim>\<open>doc.resolve(pos)\<close>, as the framework computes it. \<^verbatim>\<open>findIndex\<close> finds the child
  that a content offset points into, with the offset where that child starts (or the
  index and offset after it, when the offset is the child's end). The loop of
  \<^verbatim>\<open>resolve\<close> pushes one path entry per level and stops when the position falls between
  two children or into a text node. An offset outside the document raises a RangeError.
\<close>

fun findIndex_loop :: "ProsemirrorNode list \<Rightarrow> nat \<Rightarrow> nat \<Rightarrow> nat \<Rightarrow> error + (nat \<times> nat)" where
  "findIndex_loop [] p i curPos = Inl RangeError"
| "findIndex_loop (cur # rest) p i curPos =
     (if curPos + nodeSize cur \<ge> p
      then (if curPos + nodeSize cur = p then Inr (i + 1, curPos + nodeSize cur)
            else Inr (i, curPos))
      else findIndex_loop rest p (i + 1) (curPos + nodeSize cur))"

definition findIndex :: "ProsemirrorNode list \<Rightarrow> nat \<Rightarrow> error + (nat \<times> nat)" where
  "findIndex cs p =
     (if p = 0 then Inr (0, p)
      else if p = fragment_size cs then Inr (length cs, p)
      else if p > fragment_size cs then Inl RangeError
      else findIndex_loop cs p 0 0)"

function resolve_loop ::
  "ProsemirrorNode \<Rightarrow> nat \<Rightarrow> nat \<Rightarrow> error + ((ProsemirrorNode \<times> nat \<times> nat) list \<times> nat)" where
  "resolve_loop n parentOffset start_arg =
     (case findIndex (content n) parentOffset of
        Inl e \<Rightarrow> Inl e
      | Inr (index, offset) \<Rightarrow>
          if parentOffset - offset = 0
          then Inr ([(n, index, start_arg + offset)], parentOffset)
          else if \<not> index < length (content n) then Inl RangeError
          else if isText (content n ! index)
          then Inr ([(n, index, start_arg + offset)], parentOffset)
          else (case resolve_loop (content n ! index) (parentOffset - offset - 1)
                       (start_arg + offset + 1) of
                  Inl e \<Rightarrow> Inl e
                | Inr (path, po) \<Rightarrow> Inr ((n, index, start_arg + offset) # path, po)))"
  by pat_completeness auto
termination
proof (relation "measure (\<lambda>(n, parentOffset, start_arg). size n)")
  show "wf (measure (\<lambda>(n, parentOffset, start_arg). size n))"
    by simp
next
  fix n :: ProsemirrorNode and parentOffset start_arg :: nat
    and x2 :: "nat \<times> nat" and index offset :: nat
  assume "\<not> \<not> index < length (content n)"
  then have lt: "index < length (content n)"
    by simp
  then have "content n ! index \<in> set (content n)"
    by simp
  then have "size (content n ! index) < Suc (size_list size (content n))"
    by (simp add: less_Suc_eq_le size_list_estimation')
  moreover have "Suc (size_list size (content n)) \<le> size n"
    using lt by (cases n) simp_all
  ultimately show
    "((content n ! index, parentOffset - offset - 1, start_arg + offset + 1),
      n, parentOffset, start_arg)
     \<in> measure (\<lambda>(n, parentOffset, start_arg). size n)"
    by simp
qed

definition resolve :: "ProsemirrorNode \<Rightarrow> int \<Rightarrow> error + ResolvedPos" where
  "resolve d p =
     (if \<not> (p \<ge> 0 \<and> p \<le> int (fragment_size (content d))) then Inl RangeError
      else (case resolve_loop d (nat p) 0 of
              Inl e \<Rightarrow> Inl e
            | Inr (path, po) \<Rightarrow>
                Inr \<lparr>rp_pos = nat p, rp_path = path, rp_parentOffset = po\<rparr>))"

section \<open>Ancestor search (src/selection.ts)\<close>

record ContentNodeWithPos = NodeWithPos +
  start :: nat
  depth :: nat

text \<open>
  The loop \<^verbatim>\<open>for (let i = $pos.depth; i > 0; i--)\<close>, as a recursion on \<open>i\<close>. The
  source writes \<^verbatim>\<open>pos: i > 0 ? $pos.before(i) : 0\<close>; a RangeError of \<^verbatim>\<open>before\<close>
  would leave the function, so the result is a sum.
\<close>

fun findParentNodeClosestToPos_loop ::
  "ResolvedPos \<Rightarrow> Predicate \<Rightarrow> nat \<Rightarrow> error + ContentNodeWithPos option" where
  "findParentNodeClosestToPos_loop rp predicate 0 = Inr None"
| "findParentNodeClosestToPos_loop rp predicate (Suc k) =
     (if predicate (rp_node rp (Suc k))
      then (case (if Suc k > 0 then rp_before rp (Suc k) else Inr 0) of
              Inl e \<Rightarrow> Inl e
            | Inr b \<Rightarrow>
                Inr (Some \<lparr>node = rp_node rp (Suc k), pos = b,
                           start = rp_start rp (Suc k), depth = Suc k\<rparr>))
      else findParentNodeClosestToPos_loop rp predicate k)"

definition findParentNodeClosestToPos ::
  "ResolvedPos \<Rightarrow> Predicate \<Rightarrow> error + ContentNodeWithPos option" where
  "findParentNodeClosestToPos rp predicate =
     findParentNodeClosestToPos_loop rp predicate (rp_depth rp)"

text \<open>
  A selection is a range selection, with its two resolved ends, or a node selection,
  which holds the selected node as well. \<^verbatim>\<open>selection.node\<close> is undefined on a range
  selection.
\<close>

datatype Selection =
    TextSelection ResolvedPos ResolvedPos
  | NodeSelection ResolvedPos ResolvedPos ProsemirrorNode

fun sel_from :: "Selection \<Rightarrow> ResolvedPos" where
  "sel_from (TextSelection f t) = f"
| "sel_from (NodeSelection f t n) = f"

fun sel_to :: "Selection \<Rightarrow> ResolvedPos" where
  "sel_to (TextSelection f t) = t"
| "sel_to (NodeSelection f t n) = t"

fun sel_node :: "Selection \<Rightarrow> ProsemirrorNode option" where
  "sel_node (TextSelection f t) = None"
| "sel_node (NodeSelection f t n) = Some n"

definition findParentNode :: "Predicate \<Rightarrow> Selection \<Rightarrow> error + ContentNodeWithPos option" where
  "findParentNode predicate selection =
     findParentNodeClosestToPos (sel_from selection) predicate"

text \<open>
  Modelled from the spec: \<^verbatim>\<open>equalNodeType\<close> of \<^verbatim>\<open>./helpers\<close>, which is not among the
  sources. The spec gives the predicate of the type-based variants as "node's type is a
  member of the given type or type set"; the type argument is the list of the given
  types (one element for a single type).
\<close>

definition equalNodeType :: "NodeType list \<Rightarrow> ProsemirrorNode \<Rightarrow> bool" where
  "equalNodeType nodeType n = (node_type n \<in> set nodeType)"

definition findParentNodeOfType ::
  "NodeType list \<Rightarrow> Selection \<Rightarrow> error + ContentNodeWithPos option" where
  "findParentNodeOfType nodeType selection =
     findParentNode (\<lambda>n. equalNodeType nodeType n) selection"

section \<open>Projection into the rendered view (src/selection.ts)\<close>

text \<open>
  View nodes are objects with identity that point at each other (\<^verbatim>\<open>parentNode\<close>,
  \<^verbatim>\<open>childNodes\<close>), so they live in a store: a view node is a reference, and the store
  gives the fields of each reference. \<^verbatim>\<open>parentNode\<close> is \<^verbatim>\<open>null\<close> for a detached node.
  \<^verbatim>\<open>childNodes[offset]\<close> is \<^verbatim>\<open>undefined\<close> outside the list.
\<close>

type_synonym DomRef = nat

record DomNode =
  dom_nodeType :: nat
  dom_childNodes :: "DomRef list"
  dom_parentNode :: "DomRef option"

type_synonym Dom = "DomRef \<Rightarrow> DomNode"

type_synonym DomAtPos = "int \<Rightarrow> DomRef \<times> int"

definition TEXT_NODE :: nat where
  "TEXT_NODE = 3"

definition childNodes_at :: "DomRef list \<Rightarrow> int \<Rightarrow> DomRef option" where
  "childNodes_at cs off =
     (if 0 \<le> off \<and> off < int (length cs) then Some (cs ! nat off) else None)"

definition findDomRefAtPos :: "Dom \<Rightarrow> int \<Rightarrow> DomAtPos \<Rightarrow> DomRef option" where
  "findDomRefAtPos view position domAtPos =
     (case domAtPos position of
        (dom_node, dom_offset) \<Rightarrow>
          (let child = childNodes_at (dom_childNodes (view dom_node)) dom_offset
           in if dom_nodeType (view dom_node) = TEXT_NODE
              then dom_parentNode (view dom_node)
              else if child = None \<or> dom_nodeType (view (the child)) = TEXT_NODE
              then Some dom_node
              else child))"

section \<open>Transactions (the unnamed source file, part 000)\<close>

text \<open>
  A transaction is a mutable object of the framework. The utilities read its document
  and its current selection and set its time; everything else it holds (steps, mapping,
  metadata) is the payload \<open>'m\<close>. Transactions have identity, which the callers compare,
  and the framework's edits change a transaction in place and return it; so transactions
  live in a store, a reference is an index into it, and every operation takes the world
  (the store and the clock that \<^verbatim>\<open>Date.now()\<close> reads) and returns the new one.
\<close>

record 'm Transaction =
  doc :: ProsemirrorNode
  curSelection :: Selection
  time :: int
  payload :: 'm

type_synonym TrRef = nat

record 'm World =
  heap :: "'m Transaction list"
  now :: int

text \<open>
  The framework's part, taken as parameters: the schema's capability check
  \<^verbatim>\<open>container.canReplaceWith(from, to, type)\<close>, by container, index range and type, and
  the three edits \<^verbatim>\<open>tr.delete(from, to)\<close>, \<^verbatim>\<open>tr.insert(pos, node)\<close> and
  \<^verbatim>\<open>tr.replaceWith(from, to, node)\<close>, each as the function from the transaction's
  state before the edit to its state after it.
\<close>

record 'm Framework =
  canReplaceWith :: "ProsemirrorNode \<Rightarrow> nat \<Rightarrow> nat \<Rightarrow> NodeType \<Rightarrow> bool"
  tr_delete :: "'m Transaction \<Rightarrow> nat \<Rightarrow> nat \<Rightarrow> 'm Transaction"
  tr_insert :: "'m Transaction \<Rightarrow> nat \<Rightarrow> ProsemirrorNode \<Rightarrow> 'm Transaction"
  tr_replaceWith :: "'m Transaction \<Rightarrow> nat \<Rightarrow> nat \<Rightarrow> ProsemirrorNode \<Rightarrow> 'm Transaction"

text \<open>
  \<^verbatim>\<open>container.canReplaceWith(from, to, type)\<close> as the framework runs it: it first
  matches the container's children before the index \<^verbatim>\<open>from\<close> against the content
  expression, reading each of them, and reading a child beyond the last one raises a
  RangeError. For an index within the container the answer is the schema's.
\<close>

definition canReplaceWith_call ::
  "'m Framework \<Rightarrow> ProsemirrorNode \<Rightarrow> nat \<Rightarrow> nat \<Rightarrow> NodeType \<Rightarrow> error + bool" where
  "canReplaceWith_call fw container from to ty =
     (if from > length (content container) then Inl RangeError
      else Inr (canReplaceWith fw container from to ty))"

text \<open>An edit mutates the transaction it is called on and returns that transaction.\<close>

definition edit_in_place ::
  "'m World \<Rightarrow> TrRef \<Rightarrow> ('m Transaction \<Rightarrow> 'm Transaction) \<Rightarrow> TrRef \<times> 'm World" where
  "edit_in_place w tr f = (tr, w\<lparr>heap := (heap w)[tr := f (heap w ! tr)]\<rparr>)"

text \<open>
  \<^verbatim>\<open>Object.assign(Object.create(tr), tr).setTime(Date.now())\<close>: a new object with the
  fields of \<^verbatim>\<open>tr\<close>, whose time is then set.
\<close>

definition cloneTr :: "TrRef \<times> 'm World \<Rightarrow> TrRef \<times> 'm World" where
  "cloneTr trw =
     (case trw of
        (tr, w) \<Rightarrow>
          (length (heap w), w\<lparr>heap := heap w @ [(heap w ! tr)\<lparr>time := now w\<rparr>]\<rparr>))"

text \<open>
  \<open>replaceNodeAtPos\<close> addresses its check to \<^verbatim>\<open>tr.doc\<close>, the document root, with the
  indices of the position's own depth, which need not be indices of the root.
\<close>

definition replaceNodeAtPos ::
  "'m Framework \<Rightarrow> int \<Rightarrow> ProsemirrorNode \<Rightarrow> 'm World \<Rightarrow> TrRef \<Rightarrow> error + (TrRef \<times> 'm World)" where
  "replaceNodeAtPos fw position nd w tr =
     (case resolve (doc (heap w ! tr)) position of
        Inl e \<Rightarrow> Inl e
      | Inr rp \<Rightarrow>
          (case rp_before rp (rp_depth rp) of
             Inl e \<Rightarrow> Inl e
           | Inr from \<Rightarrow>
               (case rp_after rp (rp_depth rp) of
                  Inl e \<Rightarrow> Inl e
                | Inr to \<Rightarrow>
                    (case canReplaceWith_call fw (doc (heap w ! tr))
                            (rp_index rp (rp_depth rp)) (rp_indexAfter rp (rp_depth rp))
                            (node_type nd) of
                       Inl e \<Rightarrow> Inl e
                     | Inr permitted \<Rightarrow>
                         if permitted
                         then Inr (cloneTr (edit_in_place w tr
                                     (\<lambda>t. tr_replaceWith fw t from to nd)))
                         else Inr (tr, w)))))"

definition removeNodeAtPos ::
  "'m Framework \<Rightarrow> int \<Rightarrow> ProsemirrorNode option \<Rightarrow> 'm World \<Rightarrow> TrRef
     \<Rightarrow> error + (TrRef \<times> 'm World)" where
  "removeNodeAtPos fw position node_arg w tr =
     (case resolve (doc (heap w ! tr)) position of
        Inl e \<Rightarrow> Inl e
      | Inr rp \<Rightarrow>
          (case rp_before rp (rp_depth rp) of
             Inl e \<Rightarrow> Inl e
           | Inr from \<Rightarrow>
               (case rp_after rp (rp_depth rp) of
                  Inl e \<Rightarrow> Inl e
                | Inr to \<Rightarrow>
                    Inr (cloneTr (edit_in_place w tr (\<lambda>t. tr_delete fw t from to))))))"

definition removeParentNodeOfType ::
  "'m Framework \<Rightarrow> NodeType list \<Rightarrow> 'm World \<Rightarrow> TrRef \<Rightarrow> error + (TrRef \<times> 'm World)" where
  "removeParentNodeOfType fw nodeType w tr =
     (case findParentNodeOfType nodeType (curSelection (heap w ! tr)) of
        Inl e \<Rightarrow> Inl e
      | Inr None \<Rightarrow> Inr (tr, w)
      | Inr (Some parent) \<Rightarrow> removeNodeAtPos fw (int (pos parent)) None w tr)"

definition removeSelectedNode :: "'m Framework \<Rightarrow> 'm World \<Rightarrow> TrRef \<Rightarrow> TrRef \<times> 'm World" where
  "removeSelectedNode fw w tr =
     (if sel_node (curSelection (heap w ! tr)) \<noteq> None
      then cloneTr (edit_in_place w tr
             (\<lambda>t. tr_delete fw t (rp_pos (sel_from (curSelection (heap w ! tr))))
                    (rp_pos (sel_to (curSelection (heap w ! tr))))))
      else (tr, w))"

text \<open>
  The loop \<^verbatim>\<open>for (let i = $from.depth; i > 0; i--)\<close> of \<^verbatim>\<open>safeInsert\<close>, as a recursion
  on \<open>i\<close>. \<open>safeInsert\<close> asks each container, the parent of a resolved position, about
  that position's own index, which lies among the container's children; there the call
  returns the schema's answer.
\<close>

fun safeInsert_loop ::
  "'m Framework \<Rightarrow> ProsemirrorNode \<Rightarrow> 'm World \<Rightarrow> TrRef \<Rightarrow> ResolvedPos \<Rightarrow> nat
     \<Rightarrow> error + (TrRef \<times> 'm World)" where
  "safeInsert_loop fw nd w tr rfrom 0 = Inr (tr, w)"
| "safeInsert_loop fw nd w tr rfrom (Suc k) =
     (case rp_after rfrom (Suc k) of
        Inl e \<Rightarrow> Inl e
      | Inr p \<Rightarrow>
          (case resolve (doc (heap w ! tr)) (int p) of
             Inl e \<Rightarrow> Inl e
           | Inr rp \<Rightarrow>
               if canReplaceWith fw (rp_parent rp) (rp_index rp (rp_depth rp))
                    (rp_index rp (rp_depth rp)) (node_type nd)
               then Inr (cloneTr (edit_in_place w tr (\<lambda>t. tr_insert fw t p nd)))
               else safeInsert_loop fw nd w tr rfrom k))"

definition safeInsert ::
  "'m Framework \<Rightarrow> ProsemirrorNode \<Rightarrow> 'm World \<Rightarrow> TrRef \<Rightarrow> error + (TrRef \<times> 'm World)" where
  "safeInsert fw nd w tr =
     (if canReplaceWith fw (rp_parent (sel_from (curSelection (heap w ! tr))))
           (rp_index (sel_from (curSelection (heap w ! tr)))
              (rp_depth (sel_from (curSelection (heap w ! tr)))))
           (rp_index (sel_from (curSelection (heap w ! tr)))
              (rp_depth (sel_from (curSelection (heap w ! tr)))))
           (node_type nd)
      then Inr (cloneTr (edit_in_place w tr
                  (\<lambda>t. tr_insert fw t (rp_pos (sel_from (curSelection (heap w ! tr)))) nd)))
      else safeInsert_loop fw nd w tr (sel_from (curSelection (heap w ! tr)))
             (rp_depth (sel_from (curSelection (heap w ! tr)))))"

text \<open>
  What the spec calls "the container at an offset permits inserting a type at its
  index", and the test the spec describes for the ancestor at depth \<open>j\<close> of the cursor:
  the offset directly after that ancestor, resolved in the document, and whether the
  container there permits the type. These two follow the spec's words; \<open>safeInsert\<close>
  above does not use them.
\<close>

definition permits_insert_at :: "'m Framework \<Rightarrow> ResolvedPos \<Rightarrow> NodeType \<Rightarrow> bool" where
  "permits_insert_at fw rp ty =
     canReplaceWith fw (rp_parent rp) (rp_index rp (rp_depth rp)) (rp_index rp (rp_depth rp)) ty"

definition insertion_after ::
  "'m Framework \<Rightarrow> ProsemirrorNode \<Rightarrow> ResolvedPos \<Rightarrow> NodeType \<Rightarrow> nat \<Rightarrow> error + (nat \<times> bool)" where
  "insertion_after fw d rfrom ty j =
     (case rp_after rfrom j of
        Inl e \<Rightarrow> Inl e
      | Inr p \<Rightarrow>
          (case resolve d (int p) of
             Inl e \<Rightarrow> Inl e
           | Inr rp \<Rightarrow> Inr (p, permits_insert_at fw rp ty)))"

section \<open>Sample documents, a sample schema and a sample view\<close>

text \<open>
  A small schema in the usual shape: the document and a blockquote hold blocks, a
  paragraph holds inline nodes, and a figure is allowed at the top level only. The sample
  edits record the request in the transaction's payload.
\<close>

datatype EditRecord =
    Deleted nat nat
  | Inserted nat ProsemirrorNode
  | Replaced nat nat ProsemirrorNode

definition sample_canReplaceWith :: "ProsemirrorNode \<Rightarrow> nat \<Rightarrow> nat \<Rightarrow> NodeType \<Rightarrow> bool" where
  "sample_canReplaceWith container i j ty =
     (if node_type container = ''doc''
      then ty = ''paragraph'' \<or> ty = ''blockquote'' \<or> ty = ''horizontal_rule'' \<or> ty = ''figure''
      else if node_type container = ''blockquote''
      then ty = ''paragraph'' \<or> ty = ''blockquote'' \<or> ty = ''horizontal_rule''
      else if node_type container = ''paragraph''
      then ty = ''text'' \<or> ty = ''hard_break''
      else False)"

definition sample_framework :: "EditRecord list Framework" where
  "sample_framework =
     \<lparr>canReplaceWith = sample_canReplaceWith,
      tr_delete = (\<lambda>t a b. t\<lparr>payload := payload t @ [Deleted a b]\<rparr>),
      tr_insert = (\<lambda>t a n. t\<lparr>payload := payload t @ [Inserted a n]\<rparr>),
      tr_replaceWith = (\<lambda>t a b n. t\<lparr>payload := payload t @ [Replaced a b n]\<rparr>)\<rparr>"

definition paragraph_ab :: ProsemirrorNode where
  "paragraph_ab = Branch ''paragraph'' [TextNode ''ab'']"

definition sample_doc :: ProsemirrorNode where
  "sample_doc = Branch ''doc'' [paragraph_ab]"

definition quoted_doc :: ProsemirrorNode where
  "quoted_doc = Branch ''doc'' [Branch ''blockquote'' [paragraph_ab]]"

definition sample_table :: ProsemirrorNode where
  "sample_table =
     Branch ''table'' [Branch ''table_row'' [Branch ''table_cell'' [Branch ''paragraph'' []]]]"

text \<open>The position between \<open>a\<close> and \<open>b\<close> in each document, as \<open>resolve\<close> returns it.\<close>

definition sample_cursor :: ResolvedPos where
  "sample_cursor =
     \<lparr>rp_pos = 2, rp_path = [(sample_doc, 0, 0), (paragraph_ab, 0, 1)], rp_parentOffset = 1\<rparr>"

definition quoted_cursor :: ResolvedPos where
  "quoted_cursor =
     \<lparr>rp_pos = 3,
      rp_path = [(quoted_doc, 0, 0), (Branch ''blockquote'' [paragraph_ab], 0, 1),
                 (paragraph_ab, 0, 2)],
      rp_parentOffset = 1\<rparr>"

text \<open>
  The position directly before the paragraph of \<open>sample_doc\<close>, and the node selection of
  that paragraph.
\<close>

definition before_paragraph :: ResolvedPos where
  "before_paragraph = \<lparr>rp_pos = 0, rp_path = [(sample_doc, 0, 0)], rp_parentOffset = 0\<rparr>"

definition after_paragraph :: ResolvedPos where
  "after_paragraph = \<lparr>rp_pos = 4, rp_path = [(sample_doc, 1, 4)], rp_parentOffset = 4\<rparr>"

definition caret_world :: "EditRecord list World" where
  "caret_world =
     \<lparr>heap = [\<lparr>doc = sample_doc, curSelection = TextSelection sample_cursor sample_cursor,
               time = 0, payload = []\<rparr>],
      now = 7\<rparr>"

definition quoted_world :: "EditRecord list World" where
  "quoted_world =
     \<lparr>heap = [\<lparr>doc = quoted_doc, curSelection = TextSelection quoted_cursor quoted_cursor,
               time = 0, payload = []\<rparr>],
      now = 7\<rparr>"

definition node_selected_world :: "EditRecord list World" where
  "node_selected_world =
     \<lparr>heap = [\<lparr>doc = sample_doc,
               curSelection = NodeSelection before_paragraph after_paragraph paragraph_ab,
               time = 0, payload = []\<rparr>],
      now = 7\<rparr>"

text \<open>
  A view: the element 1 holds the text fragment 2 and the element 3. The mapper sends
  position 0 into the text fragment, position 1 to the element 1 before its first child,
  position 2 to the element 1 before its second child, and any other position to the
  element 1 after its last child.
\<close>

definition ELEMENT_NODE :: nat where
  "ELEMENT_NODE = 1"

definition sample_view :: Dom where
  "sample_view r =
     (if r = 1 then \<lparr>dom_nodeType = ELEMENT_NODE, dom_childNodes = [2, 3], dom_parentNode = None\<rparr>
      else if r = 2 then \<lparr>dom_nodeType = TEXT_NODE, dom_childNodes = [], dom_parentNode = Some 1\<rparr>
      else if r = 3 then \<lparr>dom_nodeType = ELEMENT_NODE, dom_childNodes = [], dom_parentNode = Some 1\<rparr>
      else \<lparr>dom_nodeType = ELEMENT_NODE, dom_childNodes = [], dom_parentNode = None\<rparr>)"

definition sample_domAtPos :: DomAtPos where
  "sample_domAtPos p =
     (if p = 0 then (2, 0) else if p = 1 then (1, 0) else if p = 2 then (1, 1) else (1, 2))"

text \<open>
  A view whose node 2 is a text fragment that is not attached to any parent.
\<close>

definition detached_text_view :: Dom where
  "detached_text_view r =
     (if r = 2 then \<lparr>dom_nodeType = TEXT_NODE, dom_childNodes = [], dom_parentNode = None\<rparr>
      else \<lparr>dom_nodeType = ELEMENT_NODE, dom_childNodes = [], dom_parentNode = None\<rparr>)"

section \<open>Descendant search: theorems\<close>

text \<open>
  With a callback that always answers \<^verbatim>\<open>false\<close>, the enumeration appends one entry per
  element of the content list, in order, each at the offset that the sizes of the
  preceding siblings add up to, and enters none of them.
\<close>

lemma nodesBetween_shallow:
  "nodesBetween (\<lambda>child p result. (False, result @ [\<lparr>node = child, pos = p\<rparr>])) cs p0 s =
     s @ map (\<lambda>i. \<lparr>node = cs ! i, pos = p0 + fragment_size (take i cs)\<rparr>) [0..<length cs]"
proof (induction cs arbitrary: p0 s)
  case Nil
  then show ?case by simp
next
  case (Cons c cs)
  show ?case
    by (cases c) (simp_all add: Cons.IH map_upt_Suc add.assoc del: upt_Suc)
qed

text \<open>
  Claim C7. For every node \<open>T\<close>, whatever its depth, \<open>flatten T\<close> with \<open>descend = false\<close>
  returns exactly the direct children of \<open>T\<close>: one entry per child, in order, the \<open>i\<close>-th
  entry being the \<open>i\<close>-th child at the offset directly before it (the sizes of the
  children before it). The nodes of the result are the content list of \<open>T\<close> itself, so
  every sibling is there and no entry stands for a descendant of a child.
\<close>

theorem flatten_descend_false_direct_children:
  "flatten (Some T) (Some False) =
     Inr (map (\<lambda>i. \<lparr>node = content T ! i, pos = fragment_size (take i (content T))\<rparr>)
            [0..<length (content T)]) \<and>
   map_sum id (map node) (flatten (Some T) (Some False)) = Inr (content T)"
  by (simp add: flatten_def descendants_def nodesBetween_shallow o_def map_nth)

text \<open>
  Claim C8. \<open>flatten\<close> raises the invalid-argument error when its node is absent;
  \<open>findChildren\<close> raises it when its node is absent and when its predicate is absent;
  with the arguments present neither raises: both return a list.
\<close>

theorem descendant_search_invalid_argument:
  "flatten None d = Inl InvalidNodeParameter \<and>
   findChildren None p d = Inl InvalidNodeParameter \<and>
   findChildren (Some n) None d = Inl InvalidPredicateParameter \<and>
   (\<exists>r. flatten (Some n) d = Inr r) \<and>
   (\<exists>r. findChildren (Some n) (Some P) d = Inr r)"
  by (simp add: flatten_def findChildren_def)

text \<open>
  Claim C1, at a table whose only cell is inside a row. \<open>contains\<close> passes \<^verbatim>\<open>null\<close> for
  \<open>descend\<close>, which the callback treats as \<^verbatim>\<open>false\<close>: it looks at the direct children
  only and answers false, although the full-depth search finds the cell.
\<close>

theorem contains_misses_nested_cell:
  "contains (Some sample_table) ''table_cell'' = Inr False \<and>
   findChildrenByType (Some sample_table) ''table_cell'' (Some True) =
     Inr [\<lparr>node = Branch ''table_cell'' [Branch ''paragraph'' []], pos = 1\<rparr>]"
  by (simp add: contains_def findChildrenByType_def findChildren_def flatten_def
      descendants_def sample_table_def)

text \<open>
  Claim C2, at the document \<open>doc(paragraph("ab"))\<close>. Called without a \<open>descend\<close>
  argument, \<open>flatten\<close> returns the paragraph only; the text node inside it is returned
  only when \<open>descend\<close> is passed as \<^verbatim>\<open>true\<close>.
\<close>

theorem flatten_default_is_shallow:
  "flatten (Some sample_doc) None = Inr [\<lparr>node = paragraph_ab, pos = 0\<rparr>] \<and>
   flatten (Some sample_doc) (Some True) =
     Inr [\<lparr>node = paragraph_ab, pos = 0\<rparr>, \<lparr>node = TextNode ''ab'', pos = 1\<rparr>]"
  by (simp add: flatten_def descendants_def sample_doc_def paragraph_ab_def)

section \<open>Ancestor search: theorems\<close>

text \<open>
  The loop started at \<open>k\<close>: it returns the ancestor at the largest depth \<open>d\<close> in \<open>1..k\<close>
  whose node satisfies the predicate, none when there is no such depth, and never raises.
\<close>

lemma findParentNodeClosestToPos_loop_found:
  "1 \<le> d \<Longrightarrow> d \<le> k \<Longrightarrow> predicate (rp_node rp d) \<Longrightarrow>
   (\<forall>j. d < j \<and> j \<le> k \<longrightarrow> \<not> predicate (rp_node rp j)) \<Longrightarrow>
   \<exists>b. rp_before rp d = Inr b \<and>
       findParentNodeClosestToPos_loop rp predicate k =
         Inr (Some \<lparr>node = rp_node rp d, pos = b, start = rp_start rp d, depth = d\<rparr>)"
proof (induction k)
  case 0
  then show ?case by simp
next
  case (Suc k)
  show ?case
  proof (cases "d = Suc k")
    case True
    with Suc.prems show ?thesis
      by (simp add: rp_before_def)
  next
    case False
    with Suc.prems have "d \<le> k" and "\<not> predicate (rp_node rp (Suc k))"
      by auto
    with Suc show ?thesis
      by simp
  qed
qed

lemma findParentNodeClosestToPos_loop_none:
  "(\<forall>j. 1 \<le> j \<and> j \<le> k \<longrightarrow> \<not> predicate (rp_node rp j)) \<Longrightarrow>
   findParentNodeClosestToPos_loop rp predicate k = Inr None"
  by (induction k) simp_all

lemma findParentNodeClosestToPos_loop_some:
  "findParentNodeClosestToPos_loop rp predicate k = Inr (Some r) \<Longrightarrow>
   1 \<le> depth r \<and> depth r \<le> k \<and> predicate (node r) \<and> node r = rp_node rp (depth r)"
  by (induction k) (auto simp: rp_before_def split: if_splits)

lemma findParentNodeClosestToPos_loop_no_error:
  "findParentNodeClosestToPos_loop rp predicate k \<noteq> Inl e"
  by (induction k) (auto simp: rp_before_def)

text \<open>
  Claim C5. For every resolved position and predicate, \<open>findParentNodeClosestToPos\<close>
  scans the depths from the position's depth down to 1: when \<open>d\<close> is the innermost depth
  in that range whose ancestor satisfies the predicate, the result is that ancestor with
  \<open>pos = before(d)\<close>, \<open>start = start(d)\<close> and \<open>depth = d\<close>; when no ancestor at a depth
  from 1 on satisfies it, the result is absent. A result that is present has depth at
  least 1 (never the document root, depth 0), and the function raises no error.
\<close>

theorem findParentNodeClosestToPos_innermost:
  "(1 \<le> d \<and> d \<le> rp_depth rp \<and> predicate (rp_node rp d) \<and>
      (\<forall>j. d < j \<and> j \<le> rp_depth rp \<longrightarrow> \<not> predicate (rp_node rp j)) \<longrightarrow>
      (\<exists>b. rp_before rp d = Inr b \<and>
           findParentNodeClosestToPos rp predicate =
             Inr (Some \<lparr>node = rp_node rp d, pos = b, start = rp_start rp d, depth = d\<rparr>))) \<and>
   ((\<forall>j. 1 \<le> j \<and> j \<le> rp_depth rp \<longrightarrow> \<not> predicate (rp_node rp j)) \<longrightarrow>
      findParentNodeClosestToPos rp predicate = Inr None) \<and>
   (\<forall>r. findParentNodeClosestToPos rp predicate = Inr (Some r) \<longrightarrow>
      1 \<le> depth r \<and> depth r \<le> rp_depth rp \<and> predicate (node r) \<and>
      node r = rp_node rp (depth r)) \<and>
   (\<forall>e. findParentNodeClosestToPos rp predicate \<noteq> Inl e)"
proof (intro conjI impI allI)
  assume "1 \<le> d \<and> d \<le> rp_depth rp \<and> predicate (rp_node rp d) \<and>
      (\<forall>j. d < j \<and> j \<le> rp_depth rp \<longrightarrow> \<not> predicate (rp_node rp j))"
  then show "\<exists>b. rp_before rp d = Inr b \<and>
           findParentNodeClosestToPos rp predicate =
             Inr (Some \<lparr>node = rp_node rp d, pos = b, start = rp_start rp d, depth = d\<rparr>)"
    unfolding findParentNodeClosestToPos_def
    by (intro findParentNodeClosestToPos_loop_found) simp_all
next
  assume "\<forall>j. 1 \<le> j \<and> j \<le> rp_depth rp \<longrightarrow> \<not> predicate (rp_node rp j)"
  then show "findParentNodeClosestToPos rp predicate = Inr None"
    unfolding findParentNodeClosestToPos_def
    by (rule findParentNodeClosestToPos_loop_none)
next
  fix r
  assume r: "findParentNodeClosestToPos rp predicate = Inr (Some r)"
  from findParentNodeClosestToPos_loop_some [OF r [unfolded findParentNodeClosestToPos_def]]
  show "1 \<le> depth r" "depth r \<le> rp_depth rp" "predicate (node r)"
    "node r = rp_node rp (depth r)"
    by blast+
next
  fix e
  show "findParentNodeClosestToPos rp predicate \<noteq> Inl e"
    unfolding findParentNodeClosestToPos_def
    by (rule findParentNodeClosestToPos_loop_no_error)
qed


text \<open>
  The theorem at the cursor inside \<open>doc(blockquote(paragraph("ab")))\<close>: of the two
  matching ancestors the paragraph (depth 2) is returned, the blockquote is found at
  depth 1, and the document root is never returned.
\<close>

theorem findParentNodeClosestToPos_innermost_witness:
  "findParentNodeClosestToPos quoted_cursor
     (\<lambda>n. node_type n = ''paragraph'' \<or> node_type n = ''blockquote'') =
     Inr (Some \<lparr>node = paragraph_ab, pos = 1, start = 2, depth = 2\<rparr>) \<and>
   findParentNodeClosestToPos quoted_cursor (\<lambda>n. node_type n = ''blockquote'') =
     Inr (Some \<lparr>node = Branch ''blockquote'' [paragraph_ab], pos = 0, start = 1, depth = 1\<rparr>) \<and>
   findParentNodeClosestToPos quoted_cursor (\<lambda>n. node_type n = ''doc'') = Inr None"
proof -
  have d: "rp_depth quoted_cursor = 2"
    by (simp add: rp_depth_def quoted_cursor_def)
  have n2: "rp_node quoted_cursor 2 = paragraph_ab"
    and n1: "rp_node quoted_cursor 1 = Branch ''blockquote'' [paragraph_ab]"
    by (simp_all add: rp_node_def quoted_cursor_def)
  have t2: "node_type paragraph_ab = ''paragraph''"
    by (simp add: paragraph_ab_def)
  have b: "rp_before quoted_cursor 2 = Inr 1" "rp_before quoted_cursor 1 = Inr 0"
    "rp_start quoted_cursor 2 = 2" "rp_start quoted_cursor 1 = 1"
    by (simp_all add: rp_before_def rp_start_def rp_offset_def rp_depth_def quoted_cursor_def)
  note n1' = n1 [unfolded One_nat_def] and b' = b [unfolded One_nat_def]
  have range: "j = 1 \<or> j = 2" if "1 \<le> j \<and> j \<le> 2" for j :: nat
    using that by arith
  have "1 \<le> (2::nat) \<and> 2 \<le> rp_depth quoted_cursor \<and>
      (node_type (rp_node quoted_cursor 2) = ''paragraph'' \<or>
       node_type (rp_node quoted_cursor 2) = ''blockquote'') \<and>
      (\<forall>j. 2 < j \<and> j \<le> rp_depth quoted_cursor \<longrightarrow>
        \<not> (node_type (rp_node quoted_cursor j) = ''paragraph'' \<or>
           node_type (rp_node quoted_cursor j) = ''blockquote''))"
    by (auto simp add: d n2 t2)
  with findParentNodeClosestToPos_innermost
      [of 2 quoted_cursor "\<lambda>n. node_type n = ''paragraph'' \<or> node_type n = ''blockquote''"]
  obtain b2 where "rp_before quoted_cursor 2 = Inr b2"
    and "findParentNodeClosestToPos quoted_cursor
           (\<lambda>n. node_type n = ''paragraph'' \<or> node_type n = ''blockquote'') =
         Inr (Some \<lparr>node = rp_node quoted_cursor 2, pos = b2,
                    start = rp_start quoted_cursor 2, depth = 2\<rparr>)"
    by blast
  then have first: "findParentNodeClosestToPos quoted_cursor
     (\<lambda>n. node_type n = ''paragraph'' \<or> node_type n = ''blockquote'') =
     Inr (Some \<lparr>node = paragraph_ab, pos = 1, start = 2, depth = 2\<rparr>)"
    by (simp add: b' n2)
  have "1 \<le> (1::nat) \<and> 1 \<le> rp_depth quoted_cursor \<and>
      node_type (rp_node quoted_cursor 1) = ''blockquote'' \<and>
      (\<forall>j. 1 < j \<and> j \<le> rp_depth quoted_cursor \<longrightarrow>
        node_type (rp_node quoted_cursor j) \<noteq> ''blockquote'')"
  proof (intro conjI allI impI)
    fix j :: nat
    assume "1 < j \<and> j \<le> rp_depth quoted_cursor"
    then have "j = 2"
      by (simp add: d)
    then show "node_type (rp_node quoted_cursor j) \<noteq> ''blockquote''"
      by (simp add: n2 t2)
  qed (simp_all add: d n1')
  with findParentNodeClosestToPos_innermost
      [of 1 quoted_cursor "\<lambda>n. node_type n = ''blockquote''"]
  obtain b1 where "rp_before quoted_cursor 1 = Inr b1"
    and "findParentNodeClosestToPos quoted_cursor (\<lambda>n. node_type n = ''blockquote'') =
         Inr (Some \<lparr>node = rp_node quoted_cursor 1, pos = b1,
                    start = rp_start quoted_cursor 1, depth = 1\<rparr>)"
    by blast
  then have second: "findParentNodeClosestToPos quoted_cursor (\<lambda>n. node_type n = ''blockquote'') =
     Inr (Some \<lparr>node = Branch ''blockquote'' [paragraph_ab], pos = 0, start = 1, depth = 1\<rparr>)"
    by (simp add: b' n1')
  have "\<forall>j. 1 \<le> j \<and> j \<le> rp_depth quoted_cursor \<longrightarrow>
      node_type (rp_node quoted_cursor j) \<noteq> ''doc''"
  proof (intro allI impI)
    fix j :: nat
    assume "1 \<le> j \<and> j \<le> rp_depth quoted_cursor"
    then have "j = 1 \<or> j = 2"
      using range by (simp add: d)
    then show "node_type (rp_node quoted_cursor j) \<noteq> ''doc''"
      by (auto simp: n1' n2 t2)
  qed
  with findParentNodeClosestToPos_innermost [of 0 quoted_cursor "\<lambda>n. node_type n = ''doc''"]
  have third: "findParentNodeClosestToPos quoted_cursor (\<lambda>n. node_type n = ''doc'') = Inr None"
    by blast
  from first second third show ?thesis
    by simp
qed

section \<open>Transactions: theorems\<close>

text \<open>
  An edit followed by \<open>cloneTr\<close>: the edit changes the object of the transaction it is
  called on, and the clone is a new object at a new reference, with the clock's time.
\<close>

lemma commit_and_clone:
  "tr < length (heap w) \<Longrightarrow>
   cloneTr (edit_in_place w tr f) =
     (length (heap w),
      w\<lparr>heap := (heap w)[tr := f (heap w ! tr)] @ [(f (heap w ! tr))\<lparr>time := now w\<rparr>]\<rparr>)"
  by (simp add: cloneTr_def edit_in_place_def)

text \<open>
  Claim C6. For every transaction (a reference into the store): when its current
  selection is a node selection, \<open>removeSelectedNode\<close> commits the delete of exactly the
  span from the selection's \<open>$from.pos\<close> to its \<open>$to.pos\<close> and returns a new reference,
  different from the input, whose object is the clone; when the selection is a range
  selection it returns the same reference and leaves the store as it was.
\<close>

theorem removeSelectedNode_node_selection_only:
  "tr < length (heap w) \<Longrightarrow>
   (\<forall>f t n. curSelection (heap w ! tr) = NodeSelection f t n \<longrightarrow>
      removeSelectedNode fw w tr =
        (length (heap w),
         w\<lparr>heap := (heap w)[tr := tr_delete fw (heap w ! tr) (rp_pos f) (rp_pos t)] @
                     [(tr_delete fw (heap w ! tr) (rp_pos f) (rp_pos t))\<lparr>time := now w\<rparr>]\<rparr>) \<and>
      fst (removeSelectedNode fw w tr) \<noteq> tr) \<and>
   (\<forall>f t. curSelection (heap w ! tr) = TextSelection f t \<longrightarrow>
      removeSelectedNode fw w tr = (tr, w))"
  by (simp add: removeSelectedNode_def commit_and_clone)

text \<open>
  The theorem at a transaction whose selection is the paragraph of \<open>doc(paragraph("ab"))\<close>
  (the span 0 to 4 is deleted) and at one whose selection is a caret in the text.
\<close>

theorem removeSelectedNode_node_selection_only_witness:
  "removeSelectedNode sample_framework node_selected_world 0 =
     (1, node_selected_world
           \<lparr>heap :=
              [\<lparr>doc = sample_doc,
                curSelection = NodeSelection before_paragraph after_paragraph paragraph_ab,
                time = 0, payload = [Deleted 0 4]\<rparr>,
               \<lparr>doc = sample_doc,
                curSelection = NodeSelection before_paragraph after_paragraph paragraph_ab,
                time = 7, payload = [Deleted 0 4]\<rparr>]\<rparr>) \<and>
   removeSelectedNode sample_framework caret_world 0 = (0, caret_world)"
proof -
  have valid: "0 < length (heap node_selected_world)" "0 < length (heap caret_world)"
    by (simp_all add: node_selected_world_def caret_world_def)
  have sel: "curSelection (heap node_selected_world ! 0) =
      NodeSelection before_paragraph after_paragraph paragraph_ab"
    by (simp add: node_selected_world_def)
  have caret: "curSelection (heap caret_world ! 0) = TextSelection sample_cursor sample_cursor"
    by (simp add: caret_world_def)
  from removeSelectedNode_node_selection_only [OF valid(1), of sample_framework] sel
  have "removeSelectedNode sample_framework node_selected_world 0 =
        (length (heap node_selected_world),
         node_selected_world\<lparr>heap := (heap node_selected_world)
             [0 := tr_delete sample_framework (heap node_selected_world ! 0)
                     (rp_pos before_paragraph) (rp_pos after_paragraph)] @
             [(tr_delete sample_framework (heap node_selected_world ! 0)
                 (rp_pos before_paragraph) (rp_pos after_paragraph))
              \<lparr>time := now node_selected_world\<rparr>]\<rparr>)"
    by blast
  then have first: "removeSelectedNode sample_framework node_selected_world 0 =
     (1, node_selected_world
           \<lparr>heap :=
              [\<lparr>doc = sample_doc,
                curSelection = NodeSelection before_paragraph after_paragraph paragraph_ab,
                time = 0, payload = [Deleted 0 4]\<rparr>,
               \<lparr>doc = sample_doc,
                curSelection = NodeSelection before_paragraph after_paragraph paragraph_ab,
                time = 7, payload = [Deleted 0 4]\<rparr>]\<rparr>)"
    by (simp add: node_selected_world_def sample_framework_def before_paragraph_def
        after_paragraph_def)
  from removeSelectedNode_node_selection_only [OF valid(2), of sample_framework] caret
  have second: "removeSelectedNode sample_framework caret_world 0 = (0, caret_world)"
    by blast
  from first second show ?thesis
    by simp
qed

text \<open>
  Claim C10. The result of \<open>removeNodeAtPos\<close> does not depend on its node argument: any
  two values, the omitted argument included, give the same result for the same position,
  world and transaction. Hence \<open>removeParentNodeOfType\<close>, which omits the argument, does
  what it would do with any node passed.
\<close>

theorem removeNodeAtPos_ignores_node:
  "removeNodeAtPos fw position n1 w tr = removeNodeAtPos fw position n2 w tr \<and>
   removeParentNodeOfType fw tys w tr =
     (case findParentNodeOfType tys (curSelection (heap w ! tr)) of
        Inl e \<Rightarrow> Inl e
      | Inr None \<Rightarrow> Inr (tr, w)
      | Inr (Some parent) \<Rightarrow> removeNodeAtPos fw (int (pos parent)) n w tr)"
  by (simp add: removeNodeAtPos_def removeParentNodeOfType_def split: sum.split option.split)

text \<open>
  The position 3 of \<open>doc(blockquote(paragraph("ab")))\<close> resolves inside the paragraph, at
  depth 2.
\<close>

lemma resolve_quoted_cursor: "resolve quoted_doc 3 = Inr quoted_cursor"
  by (simp add: resolve_def quoted_doc_def paragraph_ab_def quoted_cursor_def findIndex_def)

text \<open>
  Claim C3, at position 3 of \<open>doc(blockquote(paragraph("ab")))\<close> with a figure as the new
  node, under the sample schema, where only the document root holds a figure. The
  position resolves at depth 2: the node around it is the paragraph, which spans 1 to 5
  and is a child of the blockquote. Neither the paragraph, over the position's index
  range, nor the blockquote, over the paragraph's slot, permits a figure. The source asks
  \<^verbatim>\<open>tr.doc.canReplaceWith\<close>, the document root, with the paragraph's indices; the root
  permits a figure, and the source commits \<open>replaceWith(1, 5, figure)\<close> and returns a new
  transaction, the reference 1, where the input was the reference 0.
\<close>

theorem replaceNodeAtPos_asks_document_root:
  "resolve (doc (heap quoted_world ! 0)) 3 = Inr quoted_cursor \<and>
   rp_depth quoted_cursor = 2 \<and>
   rp_before quoted_cursor 2 = Inr 1 \<and> rp_after quoted_cursor 2 = Inr 5 \<and>
   rp_parent quoted_cursor = paragraph_ab \<and>
   rp_node quoted_cursor 1 = Branch ''blockquote'' [paragraph_ab] \<and>
   \<not> canReplaceWith sample_framework (rp_parent quoted_cursor)
       (rp_index quoted_cursor 2) (rp_indexAfter quoted_cursor 2) (node_type (Leaf ''figure'')) \<and>
   \<not> canReplaceWith sample_framework (rp_node quoted_cursor 1)
       (rp_index quoted_cursor 1) (rp_indexAfter quoted_cursor 1) (node_type (Leaf ''figure'')) \<and>
   replaceNodeAtPos sample_framework 3 (Leaf ''figure'') quoted_world 0 =
     Inr (cloneTr (edit_in_place quoted_world 0
            (\<lambda>t. tr_replaceWith sample_framework t 1 5 (Leaf ''figure'')))) \<and>
   map_sum id (\<lambda>(r, w). (r, map payload (heap w), map time (heap w)))
     (replaceNodeAtPos sample_framework 3 (Leaf ''figure'') quoted_world 0) =
     Inr (1, [[Replaced 1 5 (Leaf ''figure'')], [Replaced 1 5 (Leaf ''figure'')]], [0, 7])"
proof -
  have d: "doc (heap quoted_world ! 0) = quoted_doc"
    by (simp add: quoted_world_def)
  have dp: "rp_depth quoted_cursor = 2"
    by (simp add: rp_depth_def quoted_cursor_def)
  have p: "rp_parent quoted_cursor = paragraph_ab"
    by (simp add: rp_parent_def rp_node_def rp_depth_def quoted_cursor_def)
  have n1: "rp_node quoted_cursor 1 = Branch ''blockquote'' [paragraph_ab]"
    by (simp add: rp_node_def quoted_cursor_def)
  have b: "rp_before quoted_cursor 2 = Inr 1" "rp_after quoted_cursor 2 = Inr 5"
    by (simp_all add: rp_before_def rp_after_def rp_depth_def rp_offset_def rp_node_def
        quoted_cursor_def paragraph_ab_def)
  have ix: "rp_index quoted_cursor 2 = 0" "rp_indexAfter quoted_cursor 2 = 1"
    by (simp_all add: rp_index_def rp_indexAfter_def rp_textOffset_def rp_offset_def
        rp_depth_def quoted_cursor_def)
  have c: "\<not> canReplaceWith sample_framework paragraph_ab i j ''figure''" for i j
    by (simp add: sample_framework_def sample_canReplaceWith_def paragraph_ab_def)
  have q: "\<not> canReplaceWith sample_framework (Branch ''blockquote'' [paragraph_ab]) i j ''figure''"
    for i j
    by (simp add: sample_framework_def sample_canReplaceWith_def)
  have r: "canReplaceWith_call sample_framework quoted_doc 0 1 ''figure'' = Inr True"
    by (simp add: canReplaceWith_call_def sample_framework_def sample_canReplaceWith_def
        quoted_doc_def)
  have res: "replaceNodeAtPos sample_framework 3 (Leaf ''figure'') quoted_world 0 =
     Inr (cloneTr (edit_in_place quoted_world 0
            (\<lambda>t. tr_replaceWith sample_framework t 1 5 (Leaf ''figure''))))"
    by (simp add: replaceNodeAtPos_def d resolve_quoted_cursor dp b ix r [unfolded One_nat_def])
  have shown: "map_sum id (\<lambda>(r, w). (r, map payload (heap w), map time (heap w)))
     (Inr (cloneTr (edit_in_place quoted_world 0
            (\<lambda>t. tr_replaceWith sample_framework t 1 5 (Leaf ''figure''))))) =
     Inr (1, [[Replaced 1 5 (Leaf ''figure'')], [Replaced 1 5 (Leaf ''figure'')]], [0, 7])"
    by (simp add: cloneTr_def edit_in_place_def quoted_world_def sample_framework_def)
  from res shown show ?thesis
    by (simp add: d resolve_quoted_cursor dp b p n1 [unfolded One_nat_def] c q)
qed

section \<open>Projection into the view: theorems\<close>

text \<open>The branches of \<open>findDomRefAtPos\<close>, one by one.\<close>

lemma findDomRefAtPos_text:
  "domAtPos position = (n, off) \<Longrightarrow> dom_nodeType (view n) = TEXT_NODE \<Longrightarrow>
   findDomRefAtPos view position domAtPos = dom_parentNode (view n)"
  by (simp add: findDomRefAtPos_def)

lemma findDomRefAtPos_no_child:
  "domAtPos position = (n, off) \<Longrightarrow> dom_nodeType (view n) \<noteq> TEXT_NODE \<Longrightarrow>
   childNodes_at (dom_childNodes (view n)) off = None \<Longrightarrow>
   findDomRefAtPos view position domAtPos = Some n"
  by (simp add: findDomRefAtPos_def)

lemma findDomRefAtPos_text_child:
  "domAtPos position = (n, off) \<Longrightarrow> dom_nodeType (view n) \<noteq> TEXT_NODE \<Longrightarrow>
   childNodes_at (dom_childNodes (view n)) off = Some c \<Longrightarrow>
   dom_nodeType (view c) = TEXT_NODE \<Longrightarrow>
   findDomRefAtPos view position domAtPos = Some n"
  by (simp add: findDomRefAtPos_def)

lemma findDomRefAtPos_child:
  "domAtPos position = (n, off) \<Longrightarrow> dom_nodeType (view n) \<noteq> TEXT_NODE \<Longrightarrow>
   childNodes_at (dom_childNodes (view n)) off = Some c \<Longrightarrow>
   dom_nodeType (view c) \<noteq> TEXT_NODE \<Longrightarrow>
   findDomRefAtPos view position domAtPos = Some c"
  by (simp add: findDomRefAtPos_def)

text \<open>
  In a view where the parent of a text fragment is not a text fragment (a text fragment
  has no children), no branch returns a text fragment.
\<close>

lemma findDomRefAtPos_never_text:
  assumes at: "domAtPos position = (n, off)"
    and wf: "\<forall>t p. dom_nodeType (view t) = TEXT_NODE \<and> dom_parentNode (view t) = Some p \<longrightarrow>
        dom_nodeType (view p) \<noteq> TEXT_NODE"
    and res: "findDomRefAtPos view position domAtPos = Some r"
  shows "dom_nodeType (view r) \<noteq> TEXT_NODE"
proof (cases "dom_nodeType (view n) = TEXT_NODE")
  case True
  with at res have "dom_parentNode (view n) = Some r"
    by (simp add: findDomRefAtPos_text)
  with True wf show ?thesis
    by blast
next
  case False
  show ?thesis
  proof (cases "childNodes_at (dom_childNodes (view n)) off")
    case None
    with at False res show ?thesis
      by (simp add: findDomRefAtPos_no_child)
  next
    case (Some c)
    show ?thesis
    proof (cases "dom_nodeType (view c) = TEXT_NODE")
      case True
      with at False Some res show ?thesis
        by (simp add: findDomRefAtPos_text_child)
    next
      case c: False
      with at False Some res show ?thesis
        by (simp add: findDomRefAtPos_child)
    qed
  qed
qed

text \<open>
  The result is absent in one case only: the mapped view node is a text fragment that has
  no parent.
\<close>

lemma findDomRefAtPos_absent:
  "domAtPos position = (n, off) \<Longrightarrow>
   findDomRefAtPos view position domAtPos = None \<longleftrightarrow>
     dom_nodeType (view n) = TEXT_NODE \<and> dom_parentNode (view n) = None"
proof (cases "dom_nodeType (view n) = TEXT_NODE")
  case True
  assume "domAtPos position = (n, off)"
  with True show ?thesis
    by (simp add: findDomRefAtPos_text)
next
  case False
  assume at: "domAtPos position = (n, off)"
  show ?thesis
  proof (cases "childNodes_at (dom_childNodes (view n)) off")
    case None
    with at False show ?thesis
      by (simp add: findDomRefAtPos_no_child)
  next
    case (Some c)
    with at False show ?thesis
      by (cases "dom_nodeType (view c) = TEXT_NODE")
        (simp_all add: findDomRefAtPos_text_child findDomRefAtPos_child)
  qed
qed

text \<open>
  Claim C9, as the source has it. For every position and every mapper, with \<open>(n, off)\<close>
  the view node and the offset the mapper returns: when \<open>n\<close> is a text fragment the
  result is its \<^verbatim>\<open>parentNode\<close>, the containing element, which is \<^verbatim>\<open>null\<close> when the
  text fragment is detached; otherwise the result is \<open>n\<close> itself when the child of \<open>n\<close> at
  \<open>off\<close> is absent or is a text fragment, and that child otherwise. So the result is
  absent exactly when \<open>n\<close> is a text fragment without a parent, and, in a view where the
  parent of a text fragment is never a text fragment, a result that is present is never a
  text fragment.
\<close>

theorem findDomRefAtPos_element_like:
  "domAtPos position = (n, off) \<Longrightarrow>
   (dom_nodeType (view n) = TEXT_NODE \<longrightarrow>
      findDomRefAtPos view position domAtPos = dom_parentNode (view n)) \<and>
   (dom_nodeType (view n) \<noteq> TEXT_NODE \<and> childNodes_at (dom_childNodes (view n)) off = None \<longrightarrow>
      findDomRefAtPos view position domAtPos = Some n) \<and>
   (\<forall>c. dom_nodeType (view n) \<noteq> TEXT_NODE \<and>
        childNodes_at (dom_childNodes (view n)) off = Some c \<and>
        dom_nodeType (view c) = TEXT_NODE \<longrightarrow>
      findDomRefAtPos view position domAtPos = Some n) \<and>
   (\<forall>c. dom_nodeType (view n) \<noteq> TEXT_NODE \<and>
        childNodes_at (dom_childNodes (view n)) off = Some c \<and>
        dom_nodeType (view c) \<noteq> TEXT_NODE \<longrightarrow>
      findDomRefAtPos view position domAtPos = Some c) \<and>
   ((\<forall>t p. dom_nodeType (view t) = TEXT_NODE \<and> dom_parentNode (view t) = Some p \<longrightarrow>
        dom_nodeType (view p) \<noteq> TEXT_NODE) \<longrightarrow>
    (\<forall>r. findDomRefAtPos view position domAtPos = Some r \<longrightarrow>
        dom_nodeType (view r) \<noteq> TEXT_NODE)) \<and>
   (findDomRefAtPos view position domAtPos = None \<longleftrightarrow>
      dom_nodeType (view n) = TEXT_NODE \<and> dom_parentNode (view n) = None)"
proof -
  assume at: "domAtPos position = (n, off)"
  note parts = findDomRefAtPos_text [of domAtPos position n off view]
    findDomRefAtPos_no_child [of domAtPos position n off view]
    findDomRefAtPos_text_child [of domAtPos position n off view]
    findDomRefAtPos_child [of domAtPos position n off view]
    findDomRefAtPos_never_text [of domAtPos position n off view]
  have absent: "findDomRefAtPos view position domAtPos = None \<longleftrightarrow>
      dom_nodeType (view n) = TEXT_NODE \<and> dom_parentNode (view n) = None"
    using at by (rule findDomRefAtPos_absent)
  have branches:
   "(dom_nodeType (view n) = TEXT_NODE \<longrightarrow>
      findDomRefAtPos view position domAtPos = dom_parentNode (view n)) \<and>
   (dom_nodeType (view n) \<noteq> TEXT_NODE \<and> childNodes_at (dom_childNodes (view n)) off = None \<longrightarrow>
      findDomRefAtPos view position domAtPos = Some n) \<and>
   (\<forall>c. dom_nodeType (view n) \<noteq> TEXT_NODE \<and>
        childNodes_at (dom_childNodes (view n)) off = Some c \<and>
        dom_nodeType (view c) = TEXT_NODE \<longrightarrow>
      findDomRefAtPos view position domAtPos = Some n) \<and>
   (\<forall>c. dom_nodeType (view n) \<noteq> TEXT_NODE \<and>
        childNodes_at (dom_childNodes (view n)) off = Some c \<and>
        dom_nodeType (view c) \<noteq> TEXT_NODE \<longrightarrow>
      findDomRefAtPos view position domAtPos = Some c) \<and>
   ((\<forall>t p. dom_nodeType (view t) = TEXT_NODE \<and> dom_parentNode (view t) = Some p \<longrightarrow>
        dom_nodeType (view p) \<noteq> TEXT_NODE) \<longrightarrow>
    (\<forall>r. findDomRefAtPos view position domAtPos = Some r \<longrightarrow>
        dom_nodeType (view r) \<noteq> TEXT_NODE))"
    using at parts by blast
  from branches absent show ?thesis
    by (elim conjE, intro conjI) assumption+
qed

text \<open>
  Claim C9 as the spec words it, "the result is always an element-like reference", fails
  at a detached text fragment: the mapper sends position 0 to the node 2, a text fragment
  without a parent, and the result is absent.
\<close>

theorem findDomRefAtPos_detached_text_counterexample:
  "sample_domAtPos 0 = (2, 0) \<and>
   dom_nodeType (detached_text_view 2) = TEXT_NODE \<and>
   dom_parentNode (detached_text_view 2) = None \<and>
   findDomRefAtPos detached_text_view 0 sample_domAtPos = None"
  by (simp add: findDomRefAtPos_def sample_domAtPos_def detached_text_view_def
      childNodes_at_def)

text \<open>The sample view is such a view.\<close>

lemma sample_view_wf:
  "\<forall>t p. dom_nodeType (sample_view t) = TEXT_NODE \<and> dom_parentNode (sample_view t) = Some p \<longrightarrow>
     dom_nodeType (sample_view p) \<noteq> TEXT_NODE"
  by (simp add: sample_view_def TEXT_NODE_def ELEMENT_NODE_def)

text \<open>
  The theorem in the sample view, once per branch: a position inside the text fragment
  gives the element around it, a position before the text fragment and a position after
  the last child give the element itself, and a position before the inner element gives
  that element.
\<close>

theorem findDomRefAtPos_element_like_witness:
  "findDomRefAtPos sample_view 0 sample_domAtPos = Some 1 \<and>
   findDomRefAtPos sample_view 1 sample_domAtPos = Some 1 \<and>
   findDomRefAtPos sample_view 2 sample_domAtPos = Some 3 \<and>
   findDomRefAtPos sample_view 3 sample_domAtPos = Some 1 \<and>
   dom_nodeType (sample_view 3) \<noteq> TEXT_NODE"
proof -
  have a0: "sample_domAtPos 0 = (2, 0)" and a1: "sample_domAtPos 1 = (1, 0)"
    and a2: "sample_domAtPos 2 = (1, 1)" and a3: "sample_domAtPos 3 = (1, 2)"
    by (simp_all add: sample_domAtPos_def)
  have ty1: "dom_nodeType (sample_view 1) \<noteq> TEXT_NODE"
    and ty2: "dom_nodeType (sample_view 2) = TEXT_NODE"
    and ty3: "dom_nodeType (sample_view 3) \<noteq> TEXT_NODE"
    by (simp_all add: sample_view_def TEXT_NODE_def ELEMENT_NODE_def)
  have ch0: "childNodes_at (dom_childNodes (sample_view 1)) 0 = Some 2"
    and ch1: "childNodes_at (dom_childNodes (sample_view 1)) 1 = Some 3"
    and ch2: "childNodes_at (dom_childNodes (sample_view 1)) 2 = None"
    by (simp_all add: sample_view_def childNodes_at_def)
  have pa: "dom_parentNode (sample_view 2) = Some 1"
    by (simp add: sample_view_def)
  note t0 = findDomRefAtPos_element_like
      [where domAtPos = sample_domAtPos and position = 0 and view = sample_view, OF a0]
  note t1 = findDomRefAtPos_element_like
      [where domAtPos = sample_domAtPos and position = 1 and view = sample_view, OF a1]
  note t2 = findDomRefAtPos_element_like
      [where domAtPos = sample_domAtPos and position = 2 and view = sample_view, OF a2]
  note t3 = findDomRefAtPos_element_like
      [where domAtPos = sample_domAtPos and position = 3 and view = sample_view, OF a3]
  have r0: "findDomRefAtPos sample_view 0 sample_domAtPos = Some 1"
    using t0 [THEN conjunct1, rule_format, OF ty2] pa by (rule trans)
  have r1: "findDomRefAtPos sample_view 1 sample_domAtPos = Some 1"
    using ty1 ch0 ty2
    by (intro t1 [THEN conjunct2, THEN conjunct2, THEN conjunct1, rule_format, of 2] conjI)
  have r2: "findDomRefAtPos sample_view 2 sample_domAtPos = Some 3"
    using ty1 ch1 ty3
    by (intro t2 [THEN conjunct2, THEN conjunct2, THEN conjunct2, THEN conjunct1,
          rule_format, of 3] conjI)
  have r3: "findDomRefAtPos sample_view 3 sample_domAtPos = Some 1"
    using ty1 ch2
    by (intro t3 [THEN conjunct2, THEN conjunct1, rule_format] conjI)
  have "dom_nodeType (sample_view 3) \<noteq> TEXT_NODE"
    using t2 [THEN conjunct2, THEN conjunct2, THEN conjunct2, THEN conjunct2, THEN conjunct1,
        rule_format, OF sample_view_wf [rule_format] r2] .
  with r0 r1 r2 r3 show ?thesis
    by (intro conjI)
qed

section \<open>Safe insertion: theorems\<close>

text \<open>
  One turn of the loop of \<open>safeInsert\<close> is the spec's test at that depth: insert after the
  ancestor when the container there permits the type, go on with the next depth
  otherwise.
\<close>

lemma safeInsert_loop_step:
  "safeInsert_loop fw nd w tr rfrom (Suc k) =
     (case insertion_after fw (doc (heap w ! tr)) rfrom (node_type nd) (Suc k) of
        Inl e \<Rightarrow> Inl e
      | Inr (p, ok) \<Rightarrow>
          if ok then Inr (cloneTr (edit_in_place w tr (\<lambda>t. tr_insert fw t p nd)))
          else safeInsert_loop fw nd w tr rfrom k)"
  by (simp add: insertion_after_def permits_insert_at_def split: sum.split)

lemma safeInsert_loop_found:
  "1 \<le> d \<Longrightarrow> d \<le> k \<Longrightarrow>
   insertion_after fw (doc (heap w ! tr)) rfrom (node_type nd) d = Inr (p, True) \<Longrightarrow>
   (\<forall>j. d < j \<and> j \<le> k \<longrightarrow>
      (\<exists>q. insertion_after fw (doc (heap w ! tr)) rfrom (node_type nd) j = Inr (q, False))) \<Longrightarrow>
   safeInsert_loop fw nd w tr rfrom k =
     Inr (cloneTr (edit_in_place w tr (\<lambda>t. tr_insert fw t p nd)))"
proof (induction k)
  case 0
  then show ?case by simp
next
  case (Suc k)
  show ?case
  proof (cases "d = Suc k")
    case True
    with Suc.prems(3) show ?thesis
      by (simp only: safeInsert_loop_step) simp
  next
    case False
    with Suc.prems have le: "d \<le> k" and lt: "d < Suc k"
      by auto
    with Suc.prems(4) obtain q where
      "insertion_after fw (doc (heap w ! tr)) rfrom (node_type nd) (Suc k) = Inr (q, False)"
      by blast
    moreover have "safeInsert_loop fw nd w tr rfrom k =
        Inr (cloneTr (edit_in_place w tr (\<lambda>t. tr_insert fw t p nd)))"
      using Suc.IH [OF Suc.prems(1) le Suc.prems(3)] Suc.prems(4) by simp
    ultimately show ?thesis
      by (simp only: safeInsert_loop_step) simp
  qed
qed

lemma safeInsert_loop_none:
  "(\<forall>j. 1 \<le> j \<and> j \<le> k \<longrightarrow>
      (\<exists>q. insertion_after fw (doc (heap w ! tr)) rfrom (node_type nd) j = Inr (q, False))) \<Longrightarrow>
   safeInsert_loop fw nd w tr rfrom k = Inr (tr, w)"
proof (induction k)
  case 0
  then show ?case by simp
next
  case (Suc k)
  then obtain q where
    "insertion_after fw (doc (heap w ! tr)) rfrom (node_type nd) (Suc k) = Inr (q, False)"
    by (metis le_refl le_add1 plus_1_eq_Suc)
  moreover have "safeInsert_loop fw nd w tr rfrom k = Inr (tr, w)"
    using Suc by simp
  ultimately show ?case
    by (simp only: safeInsert_loop_step) simp
qed

text \<open>
  Claim C4. For every node and transaction, with \<open>rfrom\<close> the cursor (the selection's
  \<open>$from\<close>): when the cursor's container permits the node's type at the cursor's index,
  \<open>safeInsert\<close> inserts at the cursor position and returns the clone. Otherwise, when
  \<open>d\<close> is the innermost depth between the cursor's depth and 1 whose test accepts (the
  container at the offset after the ancestor at depth \<open>d\<close> permits the type at its index,
  and the test refuses at every deeper depth), it inserts at the offset directly after
  that ancestor. When the test refuses at every depth from the cursor's depth down to 1,
  it returns the input transaction and the store unchanged.
\<close>

theorem safeInsert_innermost_permitting_ancestor:
  "rfrom = sel_from (curSelection (heap w ! tr)) \<Longrightarrow>
   (permits_insert_at fw rfrom (node_type nd) \<longrightarrow>
      safeInsert fw nd w tr =
        Inr (cloneTr (edit_in_place w tr (\<lambda>t. tr_insert fw t (rp_pos rfrom) nd)))) \<and>
   (\<not> permits_insert_at fw rfrom (node_type nd) \<and> 1 \<le> d \<and> d \<le> rp_depth rfrom \<and>
    insertion_after fw (doc (heap w ! tr)) rfrom (node_type nd) d = Inr (p, True) \<and>
    (\<forall>j. d < j \<and> j \<le> rp_depth rfrom \<longrightarrow>
       (\<exists>q. insertion_after fw (doc (heap w ! tr)) rfrom (node_type nd) j = Inr (q, False))) \<longrightarrow>
      rp_after rfrom d = Inr p \<and>
      safeInsert fw nd w tr = Inr (cloneTr (edit_in_place w tr (\<lambda>t. tr_insert fw t p nd)))) \<and>
   (\<not> permits_insert_at fw rfrom (node_type nd) \<and>
    (\<forall>j. 1 \<le> j \<and> j \<le> rp_depth rfrom \<longrightarrow>
       (\<exists>q. insertion_after fw (doc (heap w ! tr)) rfrom (node_type nd) j = Inr (q, False))) \<longrightarrow>
      safeInsert fw nd w tr = Inr (tr, w))"
proof (intro conjI impI)
  assume rfrom: "rfrom = sel_from (curSelection (heap w ! tr))"
  {
    assume "permits_insert_at fw rfrom (node_type nd)"
    then show "safeInsert fw nd w tr =
        Inr (cloneTr (edit_in_place w tr (\<lambda>t. tr_insert fw t (rp_pos rfrom) nd)))"
      by (simp add: safeInsert_def permits_insert_at_def rfrom)
  next
    assume h: "\<not> permits_insert_at fw rfrom (node_type nd) \<and> 1 \<le> d \<and> d \<le> rp_depth rfrom \<and>
      insertion_after fw (doc (heap w ! tr)) rfrom (node_type nd) d = Inr (p, True) \<and>
      (\<forall>j. d < j \<and> j \<le> rp_depth rfrom \<longrightarrow>
         (\<exists>q. insertion_after fw (doc (heap w ! tr)) rfrom (node_type nd) j = Inr (q, False)))"
    then show "rp_after rfrom d = Inr p"
      by (auto simp: insertion_after_def split: sum.splits)
    from h have "safeInsert_loop fw nd w tr rfrom (rp_depth rfrom) =
        Inr (cloneTr (edit_in_place w tr (\<lambda>t. tr_insert fw t p nd)))"
      by (intro safeInsert_loop_found [of d]) simp_all
    with h show "safeInsert fw nd w tr =
        Inr (cloneTr (edit_in_place w tr (\<lambda>t. tr_insert fw t p nd)))"
      by (simp add: safeInsert_def permits_insert_at_def rfrom)
  next
    assume h: "\<not> permits_insert_at fw rfrom (node_type nd) \<and>
      (\<forall>j. 1 \<le> j \<and> j \<le> rp_depth rfrom \<longrightarrow>
         (\<exists>q. insertion_after fw (doc (heap w ! tr)) rfrom (node_type nd) j = Inr (q, False)))"
    then have "safeInsert_loop fw nd w tr rfrom (rp_depth rfrom) = Inr (tr, w)"
      by (intro safeInsert_loop_none) simp
    with h show "safeInsert fw nd w tr = Inr (tr, w)"
      by (simp add: safeInsert_def permits_insert_at_def rfrom)
  }
qed


text \<open>
  The theorem at the cursor inside \<open>doc(blockquote(paragraph("ab")))\<close>, with the sample
  schema: a hard break is permitted at the cursor and inserted there, at 3; a figure is
  permitted by the document only, the grandparent, and inserted after the blockquote, at
  6; an image is permitted nowhere and the transaction comes back unchanged.
\<close>

theorem safeInsert_innermost_permitting_ancestor_witness:
  "safeInsert sample_framework (Leaf ''hard_break'') quoted_world 0 =
     Inr (cloneTr (edit_in_place quoted_world 0
            (\<lambda>t. tr_insert sample_framework t 3 (Leaf ''hard_break'')))) \<and>
   \<not> permits_insert_at sample_framework quoted_cursor ''figure'' \<and>
   insertion_after sample_framework quoted_doc quoted_cursor ''figure'' 2 = Inr (5, False) \<and>
   insertion_after sample_framework quoted_doc quoted_cursor ''figure'' 1 = Inr (6, True) \<and>
   safeInsert sample_framework (Leaf ''figure'') quoted_world 0 =
     Inr (cloneTr (edit_in_place quoted_world 0
            (\<lambda>t. tr_insert sample_framework t 6 (Leaf ''figure'')))) \<and>
   map_sum id (\<lambda>(r, w). (r, map payload (heap w), map time (heap w)))
     (safeInsert sample_framework (Leaf ''figure'') quoted_world 0) =
     Inr (1, [[Inserted 6 (Leaf ''figure'')], [Inserted 6 (Leaf ''figure'')]], [0, 7]) \<and>
   safeInsert sample_framework (Leaf ''image'') quoted_world 0 = Inr (0, quoted_world)"
proof -
  have rfrom: "quoted_cursor = sel_from (curSelection (heap quoted_world ! 0))"
    by (simp add: quoted_world_def)
  have dc: "doc (heap quoted_world ! 0) = quoted_doc"
    by (simp add: quoted_world_def)
  have dp: "rp_depth quoted_cursor = 2"
    by (simp add: rp_depth_def quoted_cursor_def)
  have par: "rp_parent quoted_cursor = paragraph_ab"
    by (simp add: rp_parent_def rp_node_def rp_depth_def quoted_cursor_def)
  have cur: "permits_insert_at sample_framework quoted_cursor ty \<longleftrightarrow>
      ty = ''text'' \<or> ty = ''hard_break''" for ty
    by (simp add: permits_insert_at_def par sample_framework_def sample_canReplaceWith_def
        paragraph_ab_def)
  have af2: "rp_after quoted_cursor 2 = Inr 5" and af1: "rp_after quoted_cursor 1 = Inr 6"
    by (simp_all add: rp_after_def rp_depth_def rp_offset_def rp_node_def quoted_cursor_def
        paragraph_ab_def)
  have res5: "resolve quoted_doc 5 =
      Inr \<lparr>rp_pos = 5, rp_path = [(quoted_doc, 0, 0), (Branch ''blockquote'' [paragraph_ab], 1, 5)],
           rp_parentOffset = 4\<rparr>"
    by (simp add: resolve_def quoted_doc_def paragraph_ab_def findIndex_def)
  have res6: "resolve quoted_doc 6 =
      Inr \<lparr>rp_pos = 6, rp_path = [(quoted_doc, 1, 6)], rp_parentOffset = 6\<rparr>"
    by (simp add: resolve_def quoted_doc_def paragraph_ab_def findIndex_def)
  have tq: "node_type quoted_doc = ''doc''"
    by (simp add: quoted_doc_def)
  have ia2: "insertion_after sample_framework quoted_doc quoted_cursor ty 2 =
      Inr (5, ty = ''paragraph'' \<or> ty = ''blockquote'' \<or> ty = ''horizontal_rule'')" for ty
    by (simp add: insertion_after_def af2 res5 permits_insert_at_def rp_parent_def rp_node_def
        rp_depth_def sample_framework_def sample_canReplaceWith_def)
  have ia1: "insertion_after sample_framework quoted_doc quoted_cursor ty 1 =
      Inr (6, ty = ''paragraph'' \<or> ty = ''blockquote'' \<or> ty = ''horizontal_rule'' \<or>
              ty = ''figure'')" for ty
    by (simp add: insertion_after_def af1 [unfolded One_nat_def] res6 permits_insert_at_def
        rp_parent_def rp_node_def rp_depth_def sample_framework_def sample_canReplaceWith_def tq)
  have range: "j = 1 \<or> j = 2" if "1 \<le> j \<and> j \<le> 2" for j :: nat
    using that by arith
  note at_hard_break = safeInsert_innermost_permitting_ancestor
      [where fw = sample_framework and nd = "Leaf ''hard_break''" and d = 0 and p = 0, OF rfrom]
  note at_figure = safeInsert_innermost_permitting_ancestor
      [where fw = sample_framework and nd = "Leaf ''figure''" and d = 1 and p = 6, OF rfrom]
  note at_image = safeInsert_innermost_permitting_ancestor
      [where fw = sample_framework and nd = "Leaf ''image''" and d = 0 and p = 0, OF rfrom]
  have "permits_insert_at sample_framework quoted_cursor (node_type (Leaf ''hard_break''))"
    by (simp add: cur)
  with at_hard_break [THEN conjunct1]
  have first: "safeInsert sample_framework (Leaf ''hard_break'') quoted_world 0 =
     Inr (cloneTr (edit_in_place quoted_world 0
            (\<lambda>t. tr_insert sample_framework t 3 (Leaf ''hard_break''))))"
    by (simp add: quoted_cursor_def)
  have "\<not> permits_insert_at sample_framework quoted_cursor (node_type (Leaf ''figure'')) \<and>
      1 \<le> (1::nat) \<and> 1 \<le> rp_depth quoted_cursor \<and>
      insertion_after sample_framework (doc (heap quoted_world ! 0)) quoted_cursor
        (node_type (Leaf ''figure'')) 1 = Inr (6, True) \<and>
      (\<forall>j. 1 < j \<and> j \<le> rp_depth quoted_cursor \<longrightarrow>
         (\<exists>q. insertion_after sample_framework (doc (heap quoted_world ! 0)) quoted_cursor
            (node_type (Leaf ''figure'')) j = Inr (q, False)))"
  proof (intro conjI allI impI)
    fix j :: nat
    assume "1 < j \<and> j \<le> rp_depth quoted_cursor"
    then have "j = 2"
      by (simp add: dp)
    then show "\<exists>q. insertion_after sample_framework (doc (heap quoted_world ! 0)) quoted_cursor
            (node_type (Leaf ''figure'')) j = Inr (q, False)"
      by (simp add: dc ia2)
  qed (simp_all add: cur dp dc ia1 [unfolded One_nat_def])
  with at_figure [THEN conjunct2, THEN conjunct1]
  have second: "safeInsert sample_framework (Leaf ''figure'') quoted_world 0 =
     Inr (cloneTr (edit_in_place quoted_world 0
            (\<lambda>t. tr_insert sample_framework t 6 (Leaf ''figure''))))"
    by blast
  have "\<not> permits_insert_at sample_framework quoted_cursor (node_type (Leaf ''image'')) \<and>
      (\<forall>j. 1 \<le> j \<and> j \<le> rp_depth quoted_cursor \<longrightarrow>
         (\<exists>q. insertion_after sample_framework (doc (heap quoted_world ! 0)) quoted_cursor
            (node_type (Leaf ''image'')) j = Inr (q, False)))"
  proof (intro conjI allI impI)
    fix j :: nat
    assume "1 \<le> j \<and> j \<le> rp_depth quoted_cursor"
    then have "j = 1 \<or> j = 2"
      using range by (simp add: dp)
    then show "\<exists>q. insertion_after sample_framework (doc (heap quoted_world ! 0)) quoted_cursor
            (node_type (Leaf ''image'')) j = Inr (q, False)"
      by (auto simp: dc ia1 [unfolded One_nat_def] ia2)
  qed (simp add: cur)
  with at_image [THEN conjunct2, THEN conjunct2]
  have third: "safeInsert sample_framework (Leaf ''image'') quoted_world 0 = Inr (0, quoted_world)"
    by blast
  have shown: "map_sum id (\<lambda>(r, w). (r, map payload (heap w), map time (heap w)))
     (Inr (cloneTr (edit_in_place quoted_world 0
            (\<lambda>t. tr_insert sample_framework t 6 (Leaf ''figure''))))) =
     Inr (1, [[Inserted 6 (Leaf ''figure'')], [Inserted 6 (Leaf ''figure'')]], [0, 7])"
    by (simp add: cloneTr_def edit_in_place_def quoted_world_def sample_framework_def)
  from first second third shown show ?thesis
    by (simp add: cur ia1 [unfolded One_nat_def] ia2)
qed

end
